theory Spec2Isabelle
  imports Complex_Main
begin

section \<open>The audio player of ffmpeg-player: data model\<close>

text \<open>
  The development embeds \<^verbatim>\<open>src/audio-player.ts\<close> (class \<^verbatim>\<open>Player\<close>).
  Every synchronous stretch of code (a method body up to its next \<^verbatim>\<open>await\<close>, the
  code after an \<^verbatim>\<open>await\<close>, or a callback registered on the speaker or on the FFmpeg
  command) is one function on the player's fields. The code after an \<^verbatim>\<open>await\<close> on a
  promise that is already settled runs as a microtask: such continuations are kept in
  the state, in the order in which the engine will run them. What the code does to the
  outside world is appended to a trace kept in the state. Console output is left out:
  it is no public event. What the listeners of the public events do is left out too.
\<close>

subsection \<open>Errors, resources, events\<close>

text \<open>A JavaScript \<^verbatim>\<open>Error\<close> with its optional \<^verbatim>\<open>code\<close> property.\<close>

datatype jserror = JsError (message: string) (err_code: "string option")

text \<open>The result of \<^verbatim>\<open>getAudioMetadata\<close>.\<close>

record audio_format =
  channels :: nat
  sampleRate :: nat
  bitDepth :: nat

text \<open>
  \<^verbatim>\<open>new Speaker({channels, bitDepth, sampleRate})\<close> and
  \<^verbatim>\<open>ffmpeg(this.currentTrack).toFormat('s16le').audioChannels(c).audioFrequency(r)\<close>.
  The command is built from \<^verbatim>\<open>this.currentTrack\<close>, which is \<^verbatim>\<open>string | null\<close>.
\<close>

datatype speaker_obj = Speaker nat nat nat

datatype ffmpeg_obj = FfmpegCommand "string option" nat nat

text \<open>The public events with their payloads; \<^verbatim>\<open>track\<close> is \<^verbatim>\<open>this.currentTrack\<close>.\<close>

datatype event =
    EvStart "string option"
  | EvProgress "string option" real
  | EvStop "string option"
  | EvEnd "string option"
  | EvQueueEnd
  | EvError jserror

text \<open>
  What the player does to its collaborators. \<open>SetTimeout arg d\<close> is
  \<^verbatim>\<open>setTimeout(() => this.play(arg), d)\<close>. \<open>Rejected e\<close>: a promise the player
  returned is rejected with \<open>e\<close>. \<open>Uncaught e\<close>: \<open>e\<close> is thrown out of a callback.
\<close>

datatype action =
    Emit event
  | Kill ffmpeg_obj
  | EndSink speaker_obj
  | Pipe ffmpeg_obj speaker_obj
  | SetTimeout "string option" nat
  | SetInterval nat
  | ClearInterval
  | RemoveAllListeners
  | Rejected jserror
  | Uncaught jserror

text \<open>
  The continuations that wait in the microtask queue. \<open>ConfigureDone r k\<close> is the rest
  of \<^verbatim>\<open>configureFFmpeg\<close> after its \<^verbatim>\<open>await\<close> on a detector call that has thrown
  \<open>r = Some e\<close> or returned; \<open>k\<close> is what waits for \<^verbatim>\<open>configureFFmpeg\<close> in turn:
  \<^verbatim>\<open>play(filePath)\<close> or \<^verbatim>\<open>reconfigureFFmpeg\<close>. \<open>PlayBody filePath\<close> is the rest of
  \<^verbatim>\<open>play(filePath)\<close> after \<^verbatim>\<open>await this.configureFFmpeg()\<close>.
\<close>

datatype continuation = ThenPlay "string option" | ThenNothing

datatype task = ConfigureDone "jserror option" continuation | PlayBody "string option"

subsection \<open>The fields of \<^verbatim>\<open>Player\<close>\<close>

text \<open>
  \<open>audioQueue\<close> holds the entries of the queue object the player was given.
  \<open>forceNativeFFmpeg\<close> is the one option the player itself reads.
  \<open>errorListeners\<close> is \<^verbatim>\<open>this.listenerCount('error')\<close> of the inherited
  \<^verbatim>\<open>EventEmitter\<close>, and \<open>pending\<close> the microtask queue.
  Each entry of \<open>trace\<close> pairs an action with the value \<^verbatim>\<open>_isStoppingIntentionally\<close>
  had when the action was issued: this is what a callback provoked by the action
  can rely on.
\<close>

record player =
  audioQueue :: "string list"
  forceNativeFFmpeg :: bool
  isFFmpegConfigured :: bool
  isPlaying :: bool
  isPaused :: bool
  currentTrack :: "string option"
  pausedTime :: int
  ffmpegCommand :: "ffmpeg_obj option"
  speaker :: "speaker_obj option"
  startTime :: int
  progressInterval :: "nat option"
  isStoppingIntentionally :: bool
  errorListeners :: nat
  pending :: "task list"
  trace :: "(action \<times> bool) list"

text \<open>
  How a synchronous stretch ends: it returns, or it throws an error; either way it
  leaves the fields as they are at that moment.
\<close>

datatype outcome = Returned player | Thrown jserror player

text \<open>The field initialisers and the constructor.\<close>

definition new_player :: "string list \<Rightarrow> bool \<Rightarrow> player" where
  "new_player q force =
     \<lparr> audioQueue = q, forceNativeFFmpeg = force, isFFmpegConfigured = False,
       isPlaying = False, isPaused = False, currentTrack = None, pausedTime = 0,
       ffmpegCommand = None, speaker = None, startTime = 0, progressInterval = None,
       isStoppingIntentionally = False, errorListeners = 0, pending = [], trace = [] \<rparr>"

definition effect :: "action \<Rightarrow> player \<Rightarrow> player" where
  "effect a s = s\<lparr>trace := trace s @ [(a, isStoppingIntentionally s)]\<rparr>"

text \<open>
  \<open>emit\<close> is \<^verbatim>\<open>this.emit(name, payload)\<close> for the events \<^verbatim>\<open>start\<close>,
  \<^verbatim>\<open>progress\<close>, \<^verbatim>\<open>stop\<close>, \<^verbatim>\<open>end\<close> and \<^verbatim>\<open>queue-end\<close>, for which the
  emitter itself never throws. \<open>emit_error\<close> is \<^verbatim>\<open>this.emit('error', err)\<close>: an
  \<^verbatim>\<open>EventEmitter\<close> throws \<open>err\<close> itself, and calls nobody, when no listener is
  registered for \<^verbatim>\<open>error\<close>.
\<close>

definition emit :: "event \<Rightarrow> player \<Rightarrow> player" where
  "emit e s = effect (Emit e) s"

definition emit_error :: "jserror \<Rightarrow> player \<Rightarrow> outcome" where
  "emit_error err s =
     (if errorListeners s = 0 then Thrown err s else Returned (effect (Emit (EvError err)) s))"


section \<open>Teardown and stop\<close>

definition stopProgressTracker :: "player \<Rightarrow> player" where
  "stopProgressTracker s =
     (case progressInterval s of
        Some _ \<Rightarrow> (effect ClearInterval s)\<lparr>progressInterval := None\<rparr>
      | None \<Rightarrow> s)"

definition startProgressTracker :: "player \<Rightarrow> player" where
  "startProgressTracker s =
     (effect (SetInterval 1000) (stopProgressTracker s))\<lparr>progressInterval := Some 1000\<rparr>"

definition kill_ffmpeg :: "player \<Rightarrow> player" where
  "kill_ffmpeg s =
     (case ffmpegCommand s of
        Some c \<Rightarrow> (effect (Kill c) s)\<lparr>ffmpegCommand := None\<rparr>
      | None \<Rightarrow> s)"

definition end_speaker :: "player \<Rightarrow> player" where
  "end_speaker s =
     (case speaker s of
        Some k \<Rightarrow> (effect (EndSink k) s)\<lparr>speaker := None\<rparr>
      | None \<Rightarrow> s)"

definition cleanup :: "player \<Rightarrow> player" where
  "cleanup s =
     (end_speaker (kill_ffmpeg (stopProgressTracker s)))
       \<lparr>currentTrack := None, isPlaying := False, isPaused := False, startTime := 0\<rparr>"

definition stop :: "player \<Rightarrow> player" where
  "stop s =
     (if \<not> isPlaying s then s
      else cleanup ((emit (EvStop (currentTrack s)) s)\<lparr>isStoppingIntentionally := True\<rparr>))"

definition pause :: "player \<Rightarrow> player" where
  "pause s = stop s"

definition skip :: "player \<Rightarrow> player" where
  "skip s = effect (SetTimeout None 100) (stop s)"

text \<open>
  \<^verbatim>\<open>this.emit('error', err); this._cleanup();\<close>, the end of both error handlers and
  of the \<^verbatim>\<open>catch\<close> block of \<^verbatim>\<open>play\<close>: when \<^verbatim>\<open>emit\<close> throws, the cleanup does
  not run.
\<close>

definition emit_error_and_cleanup :: "jserror \<Rightarrow> player \<Rightarrow> outcome" where
  "emit_error_and_cleanup err s =
     (case emit_error err s of
        Thrown e s' \<Rightarrow> Thrown e s'
      | Returned s' \<Rightarrow> Returned (cleanup s'))"

definition destroy :: "player \<Rightarrow> player" where
  "destroy s = (effect RemoveAllListeners (cleanup s))\<lparr>errorListeners := 0\<rparr>"

definition hasTrack :: "player \<Rightarrow> bool" where
  "hasTrack s = (currentTrack s \<noteq> None)"

text \<open>\<open>now\<close> is \<^verbatim>\<open>Date.now()\<close>, in milliseconds.\<close>

definition getCurrentProgress :: "int \<Rightarrow> player \<Rightarrow> real" where
  "getCurrentProgress now s =
     (if \<not> isPlaying s then 0
      else if isPaused s then real_of_int (pausedTime s) / 1000
      else real_of_int (now - startTime s) / 1000)"

section \<open>The track queue\<close>

text \<open>
  Modelled from the spec: \<^verbatim>\<open>src/player/audio-queue.ts\<close> (the \<^verbatim>\<open>AudioQueue\<close> object
  behind \<^verbatim>\<open>IAudioQueue\<close>) is not among the sources; only its callers and the README's
  method table are. Following section 4.1 of the specification, the queue is an ordered
  list of file references: \<^verbatim>\<open>add\<close> appends to the tail, \<^verbatim>\<open>getNext\<close> removes and
  returns the head or returns an absent value, \<^verbatim>\<open>peek\<close> returns the head without
  removing it, \<^verbatim>\<open>clear\<close> removes all entries. Each operation returns its result
  together with the entries afterwards.
\<close>

definition add :: "string \<Rightarrow> string list \<Rightarrow> string list" where
  "add ref q = q @ [ref]"

definition getNext :: "string list \<Rightarrow> string option \<times> string list" where
  "getNext q = (case q of [] \<Rightarrow> (None, []) | x # xs \<Rightarrow> (Some x, xs))"

definition peek :: "string list \<Rightarrow> string option \<times> string list" where
  "peek q = (case q of [] \<Rightarrow> (None, q) | x # _ \<Rightarrow> (Some x, q))"

definition clear :: "string list \<Rightarrow> string list" where
  "clear q = []"

text \<open>
  Modelled from the spec: \<^verbatim>\<open>list()\<close> returns a snapshot (copy) of the current order.
  To say that the copy does not alias the queue, arrays live in a store at addresses;
  the queue object owns the array at its address \<open>q\<close>, \<^verbatim>\<open>list()\<close> allocates a new
  array holding the same entries and returns its address, and a caller mutates an
  array it holds by writing at its address.
\<close>

record array_store =
  arrays :: "nat \<Rightarrow> string list"
  next_free :: nat

definition list_snapshot :: "nat \<Rightarrow> array_store \<Rightarrow> nat \<times> array_store" where
  "list_snapshot q h =
     (next_free h,
      h\<lparr>arrays := (arrays h)(next_free h := arrays h q), next_free := Suc (next_free h)\<rparr>)"

definition write_array :: "nat \<Rightarrow> string list \<Rightarrow> array_store \<Rightarrow> array_store" where
  "write_array a xs h = h\<lparr>arrays := (arrays h)(a := xs)\<rparr>"

text \<open>A caller's sequence of queue operations, and the tracks \<^verbatim>\<open>getNext\<close> hands out.\<close>

datatype qop = QAdd string | QGetNext | QPeek | QClear

fun qrun :: "qop list \<Rightarrow> string list \<Rightarrow> string list \<times> string list" where
  "qrun [] q = ([], q)"
| "qrun (QAdd x # ops) q = qrun ops (add x q)"
| "qrun (QGetNext # ops) q =
     (case fst (getNext q) of
        None \<Rightarrow> qrun ops (snd (getNext q))
      | Some x \<Rightarrow> (x # fst (qrun ops (snd (getNext q))), snd (qrun ops (snd (getNext q)))))"
| "qrun (QPeek # ops) q = qrun ops (snd (peek q))"
| "qrun (QClear # ops) q = qrun ops (clear q)"

fun added :: "qop list \<Rightarrow> string list" where
  "added [] = []"
| "added (QAdd x # ops) = x # added ops"
| "added (_ # ops) = added ops"

section \<open>Starting playback\<close>

text \<open>
  What the player asks of its surroundings: \<^verbatim>\<open>fs.existsSync\<close>, the two detector
  calls of \<^verbatim>\<open>configureFFmpeg\<close> (\<open>Some e\<close> when the call throws \<open>e\<close>), and the
  \<^verbatim>\<open>Speaker\<close> constructor (\<open>Some e\<close> when it throws).
\<close>

record env =
  fileExists :: "string \<Rightarrow> bool"
  detector_detectFFmpegPaths :: "jserror option"
  detector_forceNativeFFmpeg :: "jserror option"
  newSpeaker :: "audio_format \<Rightarrow> jserror option"

definition enqueue :: "task \<Rightarrow> player \<Rightarrow> player" where
  "enqueue k s = s\<lparr>pending := pending s @ [k]\<rparr>"

text \<open>
  What waits for \<^verbatim>\<open>configureFFmpeg\<close> goes on once its promise is fulfilled: the body
  of \<^verbatim>\<open>play\<close> as a microtask of its own, \<^verbatim>\<open>reconfigureFFmpeg\<close> with nothing more.
\<close>

definition resume_after_configure :: "continuation \<Rightarrow> player \<Rightarrow> player" where
  "resume_after_configure k s =
     (case k of ThenPlay filePath \<Rightarrow> enqueue (PlayBody filePath) s | ThenNothing \<Rightarrow> s)"

definition detect :: "env \<Rightarrow> player \<Rightarrow> jserror option" where
  "detect env s =
     (if forceNativeFFmpeg s then detector_forceNativeFFmpeg env
      else detector_detectFFmpegPaths env)"

text \<open>
  \<^verbatim>\<open>configureFFmpeg()\<close> as far as it runs when called: it returns at once when FFmpeg
  is configured; otherwise it calls the detector, whose \<^verbatim>\<open>async\<close> methods run to
  their end within the call, and waits for the promise they return.
\<close>

definition configureFFmpeg :: "env \<Rightarrow> continuation \<Rightarrow> player \<Rightarrow> player" where
  "configureFFmpeg env k s =
     (if isFFmpegConfigured s then resume_after_configure k s
      else enqueue (ConfigureDone (detect env s) k) s)"

text \<open>
  The rest of \<^verbatim>\<open>configureFFmpeg\<close>: after a detector call that threw, the \<^verbatim>\<open>catch\<close>
  block throws the error again, which rejects the promise of \<^verbatim>\<open>configureFFmpeg\<close> and
  with it the promise of the \<^verbatim>\<open>play\<close> or \<^verbatim>\<open>reconfigureFFmpeg\<close> that waits for it.
\<close>

definition configure_done :: "jserror option \<Rightarrow> continuation \<Rightarrow> player \<Rightarrow> outcome" where
  "configure_done r k s =
     (case r of
        Some e \<Rightarrow> Thrown e s
      | None \<Rightarrow> Returned (resume_after_configure k (s\<lparr>isFFmpegConfigured := True\<rparr>)))"

text \<open>JavaScript truthiness of a \<^verbatim>\<open>string | undefined\<close>: the empty string is falsy.\<close>

definition truthy :: "string option \<Rightarrow> bool" where
  "truthy v = (case v of None \<Rightarrow> False | Some t \<Rightarrow> t \<noteq> [])"

definition queue_getNext :: "player \<Rightarrow> string option \<times> player" where
  "queue_getNext s =
     (fst (getNext (audioQueue s)), s\<lparr>audioQueue := snd (getNext (audioQueue s))\<rparr>)"

text \<open>\<^verbatim>\<open>filePath || this.audioQueue.getNext()\<close>: the queue is touched only when
  \<^verbatim>\<open>filePath\<close> is falsy.\<close>

definition resolveTrack :: "string option \<Rightarrow> player \<Rightarrow> string option \<times> player" where
  "resolveTrack filePath s = (if truthy filePath then (filePath, s) else queue_getNext s)"

definition file_not_found :: "string \<Rightarrow> jserror" where
  "file_not_found t = JsError (''File not found: '' @ t) None"

text \<open>
  \<^verbatim>\<open>play(filePath?)\<close> as far as it runs when called: the guard, and the call of
  \<^verbatim>\<open>configureFFmpeg\<close> it then waits for.
\<close>

definition play :: "env \<Rightarrow> string option \<Rightarrow> player \<Rightarrow> player" where
  "play env filePath s =
     (if isPlaying s then s else configureFFmpeg env (ThenPlay filePath) s)"

text \<open>
  The rest of \<^verbatim>\<open>play(filePath?)\<close> after \<^verbatim>\<open>await this.configureFFmpeg()\<close>, to the
  point where it waits for \<^verbatim>\<open>getAudioMetadata\<close>. \<^verbatim>\<open>this.emit('error', ...)\<close> for a
  missing file stands outside the \<^verbatim>\<open>try\<close> block. The retry \<^verbatim>\<open>this.play()\<close> is a
  call like any other: it runs the guard and leaves its body waiting.
\<close>

definition play_body :: "env \<Rightarrow> string option \<Rightarrow> player \<Rightarrow> outcome" where
  "play_body env filePath s =
     (case fst (resolveTrack filePath s) of
        None \<Rightarrow> Returned (emit EvQueueEnd (snd (resolveTrack filePath s)))
      | Some t \<Rightarrow>
         if t = [] then Returned (emit EvQueueEnd (snd (resolveTrack filePath s)))
         else if \<not> fileExists env t then
           (case emit_error (file_not_found t) (cleanup (snd (resolveTrack filePath s))) of
              Thrown e s' \<Rightarrow> Thrown e s'
            | Returned s' \<Rightarrow> Returned (play env None s'))
         else
           Returned ((cleanup (snd (resolveTrack filePath s)))
                      \<lparr>currentTrack := Some t, isPlaying := True, isPaused := False,
                       isStoppingIntentionally := False\<rparr>))"

text \<open>
  The rest of \<^verbatim>\<open>play\<close>, run when the promise of \<^verbatim>\<open>getAudioMetadata\<close> settles:
  \<open>Inl e\<close> is a rejection, caught by the \<^verbatim>\<open>catch\<close> block like a throwing
  \<^verbatim>\<open>Speaker\<close> constructor.
\<close>

definition play_continue :: "env \<Rightarrow> jserror + audio_format \<Rightarrow> player \<Rightarrow> outcome" where
  "play_continue env metadata s =
     (case metadata of
        Inl e \<Rightarrow> emit_error_and_cleanup e s
      | Inr m \<Rightarrow>
         (case newSpeaker env m of
            Some e \<Rightarrow> emit_error_and_cleanup e s
          | None \<Rightarrow>
             Returned
               (effect (Pipe (FfmpegCommand (currentTrack s) (channels m) (sampleRate m))
                             (Speaker (channels m) (bitDepth m) (sampleRate m)))
                  (s\<lparr>speaker := Some (Speaker (channels m) (bitDepth m) (sampleRate m)),
                     ffmpegCommand :=
                       Some (FfmpegCommand (currentTrack s) (channels m) (sampleRate m))\<rparr>))))"

section \<open>Callbacks\<close>

definition speaker_on_open :: "int \<Rightarrow> player \<Rightarrow> player" where
  "speaker_on_open now s =
     startProgressTracker (emit (EvStart (currentTrack s)) (s\<lparr>startTime := now\<rparr>))"

definition handleTrackEnd :: "player \<Rightarrow> player" where
  "handleTrackEnd s =
     (if isStoppingIntentionally s then s
      else
        let finishedTrack = currentTrack s;
            s1 = cleanup (emit (EvEnd finishedTrack) s);
            nextTrack = fst (queue_getNext s1);
            s2 = snd (queue_getNext s1)
        in if truthy nextTrack then effect (SetTimeout nextTrack 100) s2
           else emit EvQueueEnd s2)"

definition speaker_on_close :: "player \<Rightarrow> player" where
  "speaker_on_close s = handleTrackEnd s"

definition speaker_on_error :: "jserror \<Rightarrow> player \<Rightarrow> outcome" where
  "speaker_on_error err s =
     (if isStoppingIntentionally s \<and> err_code err = Some ''ERR_STREAM_WRITE_AFTER_END''
      then Returned s
      else emit_error_and_cleanup err s)"

definition ffmpeg_on_error :: "jserror \<Rightarrow> player \<Rightarrow> outcome" where
  "ffmpeg_on_error err s =
     (if isStoppingIntentionally s then Returned s else emit_error_and_cleanup err s)"

definition ffmpeg_on_end :: "player \<Rightarrow> player" where
  "ffmpeg_on_end s = s\<lparr>isStoppingIntentionally := False\<rparr>"

definition progress_tick :: "int \<Rightarrow> player \<Rightarrow> player" where
  "progress_tick now s =
     (if isPlaying s \<and> \<not> isPaused s
      then emit (EvProgress (currentTrack s) (real_of_int (now - startTime s) / 1000)) s
      else s)"

section \<open>The remaining methods\<close>

definition resume :: "env \<Rightarrow> player \<Rightarrow> player" where
  "resume env s =
     (if \<not> isPlaying s \<and> currentTrack s = None then play env None s
      else if currentTrack s \<noteq> None \<and> \<not> isPlaying s then play env (currentTrack s) s
      else s)"

text \<open>
  \<^verbatim>\<open>reconfigureFFmpeg(options)\<close> as far as it runs when called: of the options only
  \<^verbatim>\<open>forceNativeFFmpeg\<close> is kept in the player.
\<close>

definition reconfigure_options :: "bool option \<Rightarrow> player \<Rightarrow> player" where
  "reconfigure_options force s =
     s\<lparr>forceNativeFFmpeg := (case force of None \<Rightarrow> forceNativeFFmpeg s | Some b \<Rightarrow> b),
       isFFmpegConfigured := False\<rparr>"

definition reconfigureFFmpeg :: "env \<Rightarrow> bool option \<Rightarrow> player \<Rightarrow> player" where
  "reconfigureFFmpeg env force s =
     configureFFmpeg env ThenNothing (reconfigure_options force s)"

section \<open>Executions\<close>

text \<open>
  An error thrown by the code after an \<^verbatim>\<open>await\<close> rejects the promise of the
  \<^verbatim>\<open>async\<close> method; an error thrown by a callback of the speaker or of the decoder
  is caught by nobody.
\<close>

definition settle_promise :: "outcome \<Rightarrow> player" where
  "settle_promise r = (case r of Returned s \<Rightarrow> s | Thrown e s \<Rightarrow> effect (Rejected e) s)"

definition settle_callback :: "outcome \<Rightarrow> player" where
  "settle_callback r = (case r of Returned s \<Rightarrow> s | Thrown e s \<Rightarrow> effect (Uncaught e) s)"

definition run_task :: "env \<Rightarrow> task \<Rightarrow> player \<Rightarrow> player" where
  "run_task env k s =
     (case k of
        ConfigureDone r c \<Rightarrow> settle_promise (configure_done r c s)
      | PlayBody filePath \<Rightarrow> settle_promise (play_body env filePath s))"

text \<open>The engine runs the oldest waiting continuation.\<close>

definition microtask :: "env \<Rightarrow> player \<Rightarrow> player" where
  "microtask env s =
     (case pending s of [] \<Rightarrow> s | k # ks \<Rightarrow> run_task env k (s\<lparr>pending := ks\<rparr>))"

text \<open>
  Everything that can run on a player: a call of a public method (\<open>OnError\<close> is
  \<^verbatim>\<open>on('error', listener)\<close>, the one method of the inherited emitter that is
  modelled besides \<^verbatim>\<open>emit\<close> and \<^verbatim>\<open>removeAllListeners\<close>), a waiting continuation, a
  callback of the speaker, the decoder or a timer, the settling of a metadata probe,
  and a caller's own use of the queue object. Calls made one after the other in one
  synchronous stretch are steps with no \<open>Microtask\<close> between them.
\<close>

datatype op =
    CallPlay "string option"
  | Microtask
  | MetadataSettled "jserror + audio_format"
  | CallPause
  | CallResume
  | CallStop
  | CallSkip
  | CallDestroy
  | CallReconfigure "bool option"
  | OnError
  | TimerPlay "string option"
  | SpeakerOpen int
  | SpeakerClose
  | SpeakerError jserror
  | FfmpegError jserror
  | FfmpegEnd
  | ProgressTick int
  | QueueAdd string
  | QueueGetNext
  | QueueClear

fun step :: "env \<Rightarrow> op \<Rightarrow> player \<Rightarrow> player" where
  "step env (CallPlay filePath) s = play env filePath s"
| "step env Microtask s = microtask env s"
| "step env (MetadataSettled m) s = settle_promise (play_continue env m s)"
| "step env CallPause s = pause s"
| "step env CallResume s = resume env s"
| "step env CallStop s = stop s"
| "step env CallSkip s = skip s"
| "step env CallDestroy s = destroy s"
| "step env (CallReconfigure force) s = reconfigureFFmpeg env force s"
| "step env OnError s = s\<lparr>errorListeners := Suc (errorListeners s)\<rparr>"
| "step env (TimerPlay filePath) s = play env filePath s"
| "step env (SpeakerOpen now) s = speaker_on_open now s"
| "step env SpeakerClose s = speaker_on_close s"
| "step env (SpeakerError err) s = settle_callback (speaker_on_error err s)"
| "step env (FfmpegError err) s = settle_callback (ffmpeg_on_error err s)"
| "step env FfmpegEnd s = ffmpeg_on_end s"
| "step env (ProgressTick now) s = progress_tick now s"
| "step env (QueueAdd t) s = s\<lparr>audioQueue := add t (audioQueue s)\<rparr>"
| "step env QueueGetNext s = snd (queue_getNext s)"
| "step env QueueClear s = s\<lparr>audioQueue := clear (audioQueue s)\<rparr>"

text \<open>The states a player can be in: those an execution reaches from a new player.\<close>

inductive reachable :: "player \<Rightarrow> bool" where
  init: "reachable (new_player q force)"
| step: "reachable s \<Longrightarrow> reachable (step env op s)"

text \<open>The actions a state transformer issues from a state, and the events among them.\<close>

definition issued :: "(player \<Rightarrow> player) \<Rightarrow> player \<Rightarrow> (action \<times> bool) list" where
  "issued f s = drop (length (trace s)) (trace (f s))"

fun events :: "(action \<times> bool) list \<Rightarrow> event list" where
  "events [] = []"
| "events ((Emit e, _) # xs) = e # events xs"
| "events (_ # xs) = events xs"

fun resource_killing :: "action \<Rightarrow> bool" where
  "resource_killing (Kill _) = True"
| "resource_killing (EndSink _) = True"
| "resource_killing _ = False"

text \<open>The errors that rejected a promise or left a callback uncaught.\<close>

fun failures :: "(action \<times> bool) list \<Rightarrow> jserror list" where
  "failures [] = []"
| "failures ((Rejected e, _) # xs) = e # failures xs"
| "failures ((Uncaught e, _) # xs) = e # failures xs"
| "failures (_ # xs) = failures xs"

text \<open>The calls \<^verbatim>\<open>_cleanup()\<close> makes from a state, in their order.\<close>

definition teardown_calls :: "player \<Rightarrow> action list" where
  "teardown_calls s =
     (case progressInterval s of Some _ \<Rightarrow> [ClearInterval] | None \<Rightarrow> [])
     @ (case ffmpegCommand s of Some c \<Rightarrow> [Kill c] | None \<Rightarrow> [])
     @ (case speaker s of Some k \<Rightarrow> [EndSink k] | None \<Rightarrow> [])"

text \<open>The detector call of \<^verbatim>\<open>configureFFmpeg\<close>, if one is needed, does not throw.\<close>

definition configurable :: "env \<Rightarrow> player \<Rightarrow> bool" where
  "configurable env s = (isFFmpegConfigured s \<or> detect env s = None)"

text \<open>
  The number of microtasks from a call of \<^verbatim>\<open>play\<close> on an idle player with nothing
  waiting to the end of its body: one, and one more for the rest of
  \<^verbatim>\<open>configureFFmpeg\<close> when FFmpeg is not configured yet.
\<close>

definition hops :: "player \<Rightarrow> nat" where
  "hops s = (if isFFmpegConfigured s then 1 else 2)"

text \<open>The track an argument of \<^verbatim>\<open>play\<close> names, if it names one.\<close>

definition explicit_track :: "string option \<Rightarrow> string list" where
  "explicit_track filePath =
     (case filePath of None \<Rightarrow> [] | Some t \<Rightarrow> if t = [] then [] else [t])"

text \<open>
  A call of \<^verbatim>\<open>play\<close> followed by the microtasks of its body and of one retry for
  each track there is to try.
\<close>

definition play_and_retries :: "env \<Rightarrow> string option \<Rightarrow> player \<Rightarrow> player" where
  "play_and_retries env filePath s =
     (microtask env ^^ (hops s + length (explicit_track filePath @ audioQueue s)))
       (play env filePath s)"

text \<open>A track is referenced only while playing.\<close>

definition track_only_while_playing :: "player \<Rightarrow> bool" where
  "track_only_while_playing s = (isPlaying s \<or> currentTrack s = None)"

section \<open>Example executions\<close>

text \<open>An environment in which every file exists and every collaborator succeeds.\<close>

definition env_ok :: env where
  "env_ok = \<lparr>fileExists = (\<lambda>t. True), detector_detectFFmpegPaths = None,
              detector_forceNativeFFmpeg = None, newSpeaker = (\<lambda>m. None)\<rparr>"

text \<open>An environment in which no file exists.\<close>

definition env_missing :: env where
  "env_missing = \<lparr>fileExists = (\<lambda>t. False), detector_detectFFmpegPaths = None,
                   detector_forceNativeFFmpeg = None, newSpeaker = (\<lambda>m. None)\<rparr>"

text \<open>An environment in which only \<^verbatim>\<open>b.mp3\<close> exists.\<close>

definition env_only_b :: env where
  "env_only_b = \<lparr>fileExists = (\<lambda>t. t = ''b.mp3''), detector_detectFFmpegPaths = None,
                  detector_forceNativeFFmpeg = None, newSpeaker = (\<lambda>m. None)\<rparr>"

definition stereo :: audio_format where
  "stereo = \<lparr>channels = 2, sampleRate = 44100, bitDepth = 16\<rparr>"

text \<open>A new player on which the caller has registered one listener for \<^verbatim>\<open>error\<close>.\<close>

definition listening_player :: "string list \<Rightarrow> player" where
  "listening_player q = step env_ok OnError (new_player q False)"

text \<open>
  \<^verbatim>\<open>play()\<close> on such a player with queue \<^verbatim>\<open>['a.mp3', 'b.mp3']\<close>: after its two
  microtasks, before the metadata probe settles (\<open>loading_example\<close>), and after the
  probe settled and the speaker opened at time 5000 (\<open>playing_example\<close>).
\<close>

definition loading_example :: player where
  "loading_example =
     step env_ok Microtask
       (step env_ok Microtask
          (step env_ok (CallPlay None) (listening_player [''a.mp3'', ''b.mp3''])))"

definition playing_example :: player where
  "playing_example =
     step env_ok (SpeakerOpen 5000) (step env_ok (MetadataSettled (Inr stereo)) loading_example)"

text \<open>The same on the queue \<^verbatim>\<open>['a.mp3']\<close>: the last track is playing.\<close>

definition last_track_example :: player where
  "last_track_example =
     step env_ok (SpeakerOpen 5000)
       (step env_ok (MetadataSettled (Inr stereo))
          (step env_ok Microtask
             (step env_ok Microtask
                (step env_ok (CallPlay None) (listening_player [''a.mp3''])))))"

section \<open>Properties\<close>

lemma audioQueue_effect: "audioQueue (effect a s) = audioQueue s"
  by (simp add: effect_def)

lemma audioQueue_cleanup: "audioQueue (cleanup s) = audioQueue s"
  by (simp add: cleanup_def end_speaker_def kill_ffmpeg_def stopProgressTracker_def
      effect_def split: option.splits)

lemma cleanup_fields:
  "currentTrack (cleanup s) = None" "\<not> isPlaying (cleanup s)" "\<not> isPaused (cleanup s)"
  "startTime (cleanup s) = 0" "ffmpegCommand (cleanup s) = None" "speaker (cleanup s) = None"
  "progressInterval (cleanup s) = None"
  by (simp_all add: cleanup_def end_speaker_def kill_ffmpeg_def stopProgressTracker_def
      effect_def split: option.splits)

lemma cleanup_keeps:
  "isFFmpegConfigured (cleanup s) = isFFmpegConfigured s"
  "forceNativeFFmpeg (cleanup s) = forceNativeFFmpeg s"
  "errorListeners (cleanup s) = errorListeners s"
  "pending (cleanup s) = pending s"
  "isStoppingIntentionally (cleanup s) = isStoppingIntentionally s"
  by (simp_all add: cleanup_def end_speaker_def kill_ffmpeg_def stopProgressTracker_def
      effect_def split: option.splits)

text \<open>
  C7. \<^verbatim>\<open>stop()\<close> on a controller that is not playing changes no field of the
  player and issues no action: no \<^verbatim>\<open>stop\<close> event, no kill, no end of the sink.
\<close>

theorem stop_idle_noop: "\<not> isPlaying s \<Longrightarrow> stop s = s"
  by (simp add: stop_def)

theorem stop_idle_noop_witness:
  "\<not> isPlaying (new_player [''a.mp3''] False)
   \<and> stop (new_player [''a.mp3''] False) = new_player [''a.mp3''] False"
  using stop_idle_noop [of "new_player [''a.mp3''] False"]
  by (simp add: new_player_def)

text \<open>
  C9. Teardown is idempotent: a second \<^verbatim>\<open>_cleanup()\<close> right after a first one
  returns the very same state (so it issues no further action and raises nothing),
  and in that state the progress timer, the decoder and the sink are null,
  \<^verbatim>\<open>currentTrack\<close> is null, \<^verbatim>\<open>isPlaying\<close> and \<^verbatim>\<open>isPaused\<close> are false and
  \<^verbatim>\<open>startTime\<close> is 0.
\<close>

theorem cleanup_idempotent:
  "cleanup (cleanup s) = cleanup s
   \<and> progressInterval (cleanup s) = None \<and> ffmpegCommand (cleanup s) = None
   \<and> speaker (cleanup s) = None \<and> currentTrack (cleanup s) = None
   \<and> \<not> isPlaying (cleanup s) \<and> \<not> isPaused (cleanup s) \<and> startTime (cleanup s) = 0"
  by (simp add: cleanup_def end_speaker_def kill_ffmpeg_def stopProgressTracker_def
      effect_def split: option.splits)

lemma loading_example_eq:
  "loading_example =
     \<lparr> audioQueue = [''b.mp3''], forceNativeFFmpeg = False, isFFmpegConfigured = True,
       isPlaying = True, isPaused = False, currentTrack = Some ''a.mp3'', pausedTime = 0,
       ffmpegCommand = None, speaker = None, startTime = 0, progressInterval = None,
       isStoppingIntentionally = False, errorListeners = 1, pending = [], trace = [] \<rparr>"
  by (simp add: loading_example_def listening_player_def env_ok_def new_player_def play_def
      configureFFmpeg_def detect_def enqueue_def microtask_def run_task_def configure_done_def
      resume_after_configure_def settle_promise_def play_body_def
      resolveTrack_def truthy_def queue_getNext_def getNext_def cleanup_def end_speaker_def
      kill_ffmpeg_def stopProgressTracker_def)

lemma playing_example_eq:
  "playing_example =
     \<lparr> audioQueue = [''b.mp3''], forceNativeFFmpeg = False, isFFmpegConfigured = True,
       isPlaying = True, isPaused = False, currentTrack = Some ''a.mp3'', pausedTime = 0,
       ffmpegCommand = Some (FfmpegCommand (Some ''a.mp3'') 2 44100),
       speaker = Some (Speaker 2 16 44100), startTime = 5000, progressInterval = Some 1000,
       isStoppingIntentionally = False, errorListeners = 1, pending = [],
       trace = [(Pipe (FfmpegCommand (Some ''a.mp3'') 2 44100) (Speaker 2 16 44100), False),
                (Emit (EvStart (Some ''a.mp3'')), False), (SetInterval 1000, False)] \<rparr>"
  by (simp add: playing_example_def loading_example_eq env_ok_def stereo_def
      stopProgressTracker_def startProgressTracker_def speaker_on_open_def play_continue_def
      settle_promise_def emit_def effect_def)

lemma trace_cleanup:
  "trace (cleanup s) = trace s
     @ (case progressInterval s of Some _ \<Rightarrow> [(ClearInterval, isStoppingIntentionally s)]
        | None \<Rightarrow> [])
     @ (case ffmpegCommand s of Some c \<Rightarrow> [(Kill c, isStoppingIntentionally s)] | None \<Rightarrow> [])
     @ (case speaker s of Some k \<Rightarrow> [(EndSink k, isStoppingIntentionally s)] | None \<Rightarrow> [])"
  by (simp add: cleanup_def end_speaker_def kill_ffmpeg_def stopProgressTracker_def
      effect_def split: option.splits)

lemma latch_cleanup: "isStoppingIntentionally (cleanup s) = isStoppingIntentionally s"
  by (simp add: cleanup_keeps)

lemma issued_stop:
  "isPlaying s \<Longrightarrow>
   issued stop s = (Emit (EvStop (currentTrack s)), isStoppingIntentionally s)
     # (case progressInterval s of Some _ \<Rightarrow> [(ClearInterval, True)] | None \<Rightarrow> [])
     @ (case ffmpegCommand s of Some c \<Rightarrow> [(Kill c, True)] | None \<Rightarrow> [])
     @ (case speaker s of Some k \<Rightarrow> [(EndSink k, True)] | None \<Rightarrow> [])"
  by (simp add: issued_def stop_def trace_cleanup emit_def effect_def split: option.splits)

text \<open>
  C1. \<^verbatim>\<open>stop()\<close> on a playing controller: every resource-killing call it issues
  (the kill of the decoder, the end of the sink) is issued with the latch
  \<^verbatim>\<open>_isStoppingIntentionally\<close> already true; the decoder and the sink that were open
  are killed and ended in this way; and the latch is true when \<^verbatim>\<open>stop()\<close> returns,
  which is the state every later callback of the torn-down resources starts from.
\<close>

theorem stop_sets_latch_before_teardown:
  assumes "isPlaying s"
  shows "(\<forall>e \<in> set (issued stop s). resource_killing (fst e) \<longrightarrow> snd e)
         \<and> (\<forall>c. ffmpegCommand s = Some c \<longrightarrow> (Kill c, True) \<in> set (issued stop s))
         \<and> (\<forall>k. speaker s = Some k \<longrightarrow> (EndSink k, True) \<in> set (issued stop s))
         \<and> trace (stop s) = trace s @ issued stop s
         \<and> isStoppingIntentionally (stop s)"
proof -
  have tr: "trace (stop s) = trace s @ issued stop s"
    using assms by (simp add: issued_def stop_def trace_cleanup emit_def effect_def)
  have latch: "isStoppingIntentionally (stop s)"
    using assms by (simp add: stop_def latch_cleanup)
  have tagged: "\<forall>e \<in> set (issued stop s). resource_killing (fst e) \<longrightarrow> snd e"
    using assms by (auto simp: issued_stop split: option.splits)
  have present: "(\<forall>c. ffmpegCommand s = Some c \<longrightarrow> (Kill c, True) \<in> set (issued stop s))
         \<and> (\<forall>k. speaker s = Some k \<longrightarrow> (EndSink k, True) \<in> set (issued stop s))"
    using assms by (auto simp: issued_stop split: option.splits)
  from tr latch tagged present show ?thesis by blast
qed

theorem stop_sets_latch_before_teardown_witness:
  "isPlaying playing_example
   \<and> issued stop playing_example =
       [(Emit (EvStop (Some ''a.mp3'')), False), (ClearInterval, True),
        (Kill (FfmpegCommand (Some ''a.mp3'') 2 44100), True),
        (EndSink (Speaker 2 16 44100), True)]
   \<and> isStoppingIntentionally (stop playing_example)"
  using stop_sets_latch_before_teardown [of playing_example]
  by (simp add: playing_example_eq issued_stop)

lemma stop_playing_example_eq:
  "stop playing_example =
     \<lparr> audioQueue = [''b.mp3''], forceNativeFFmpeg = False, isFFmpegConfigured = True,
       isPlaying = False, isPaused = False, currentTrack = None, pausedTime = 0,
       ffmpegCommand = None, speaker = None, startTime = 0, progressInterval = None,
       isStoppingIntentionally = True, errorListeners = 1, pending = [],
       trace = [(Pipe (FfmpegCommand (Some ''a.mp3'') 2 44100) (Speaker 2 16 44100), False),
                (Emit (EvStart (Some ''a.mp3'')), False), (SetInterval 1000, False),
                (Emit (EvStop (Some ''a.mp3'')), False), (ClearInterval, True),
                (Kill (FfmpegCommand (Some ''a.mp3'') 2 44100), True),
                (EndSink (Speaker 2 16 44100), True)] \<rparr>"
  by (simp add: playing_example_eq stop_def cleanup_def end_speaker_def kill_ffmpeg_def
      stopProgressTracker_def emit_def effect_def)

text \<open>
  C3. In every state in which the latch is set (it is set by \<^verbatim>\<open>stop()\<close> on a playing
  track and by nothing else), the decoder's error callback, whatever the error, and the
  sink's error callback with code \<^verbatim>\<open>ERR_STREAM_WRITE_AFTER_END\<close> return with the state
  unchanged: no \<^verbatim>\<open>error\<close> event is emitted, nothing is thrown and no cleanup runs.
\<close>

theorem teardown_echo_suppressed:
  assumes "isStoppingIntentionally s"
    and "err_code werr = Some ''ERR_STREAM_WRITE_AFTER_END''"
  shows "ffmpeg_on_error err s = Returned s \<and> speaker_on_error werr s = Returned s
         \<and> step env (FfmpegError err) s = s \<and> step env (SpeakerError werr) s = s
         \<and> events (issued (step env (FfmpegError err)) s) = []
         \<and> events (issued (step env (SpeakerError werr)) s) = []"
  using assms
  by (simp add: ffmpeg_on_error_def speaker_on_error_def settle_callback_def issued_def)

theorem teardown_echo_suppressed_witness:
  "isStoppingIntentionally (stop playing_example)
   \<and> ffmpeg_on_error (JsError ''ffmpeg was killed with signal SIGKILL'' None)
        (stop playing_example) = Returned (stop playing_example)
   \<and> speaker_on_error (JsError ''write after end'' (Some ''ERR_STREAM_WRITE_AFTER_END''))
        (stop playing_example) = Returned (stop playing_example)"
  using teardown_echo_suppressed [of "stop playing_example"
      "JsError ''write after end'' (Some ''ERR_STREAM_WRITE_AFTER_END'')"
      "JsError ''ffmpeg was killed with signal SIGKILL'' None"]
  by (simp add: stop_playing_example_eq)

text \<open>
  C5. \<^verbatim>\<open>play()\<close> while \<^verbatim>\<open>isPlaying\<close> is true, which it is from the moment a
  track was resolved and so also while its metadata is still being probed, returns
  with the state unchanged: no event, nothing left waiting, and \<^verbatim>\<open>currentTrack\<close>,
  latch, decoder and sink as they were.
\<close>

theorem play_while_playing_noop:
  "isPlaying s \<Longrightarrow> play env filePath s = s \<and> step env (CallPlay filePath) s = s"
  by (simp add: play_def)

theorem play_while_playing_noop_witness:
  "isPlaying loading_example \<and> play env_ok (Some ''c.mp3'') loading_example = loading_example
   \<and> isPlaying playing_example \<and> play env_ok None playing_example = playing_example"
  using play_while_playing_noop [of loading_example env_ok "Some ''c.mp3''"]
    play_while_playing_noop [of playing_example env_ok None]
  by (simp add: loading_example_eq playing_example_eq)

lemma latch_effect: "isStoppingIntentionally (effect a s) = isStoppingIntentionally s"
  by (simp add: effect_def)

lemma latch_play: "isStoppingIntentionally (play env filePath s) = isStoppingIntentionally s"
  by (simp add: play_def configureFFmpeg_def resume_after_configure_def enqueue_def
      split: continuation.splits)

lemma latch_resolveTrack:
  "isStoppingIntentionally (snd (resolveTrack filePath s)) = isStoppingIntentionally s"
  by (simp add: resolveTrack_def queue_getNext_def)

lemma latch_emit_error_and_cleanup:
  "isStoppingIntentionally (settle_promise (emit_error_and_cleanup e s))
     = isStoppingIntentionally s"
  "isStoppingIntentionally (settle_callback (emit_error_and_cleanup e s))
     = isStoppingIntentionally s"
  by (simp_all add: emit_error_and_cleanup_def emit_error_def settle_promise_def
      settle_callback_def latch_effect latch_cleanup)

lemma latch_stop: "isStoppingIntentionally s \<Longrightarrow> isStoppingIntentionally (stop s)"
  by (simp add: stop_def latch_cleanup)

lemma latch_handleTrackEnd:
  "isStoppingIntentionally (handleTrackEnd s) = isStoppingIntentionally s"
  by (simp add: handleTrackEnd_def Let_def queue_getNext_def emit_def latch_effect latch_cleanup)

lemma latch_play_continue:
  "isStoppingIntentionally (settle_promise (play_continue env m s)) = isStoppingIntentionally s"
  by (simp add: play_continue_def latch_emit_error_and_cleanup split: sum.splits option.splits)
     (simp add: settle_promise_def latch_effect)

lemma latch_speaker_on_open:
  "isStoppingIntentionally (speaker_on_open now s) = isStoppingIntentionally s"
  by (simp add: speaker_on_open_def startProgressTracker_def stopProgressTracker_def
      emit_def effect_def split: option.splits)

lemma latch_reconfigureFFmpeg:
  "isStoppingIntentionally (reconfigureFFmpeg env force s) = isStoppingIntentionally s"
  by (simp add: reconfigureFFmpeg_def reconfigure_options_def configureFFmpeg_def
      resume_after_configure_def enqueue_def)

lemma latch_configure_done:
  "isStoppingIntentionally (settle_promise (configure_done r k s)) = isStoppingIntentionally s"
  by (simp add: configure_done_def settle_promise_def resume_after_configure_def enqueue_def
      latch_effect split: option.splits continuation.splits)

lemma play_body_clears_latch_only_on_existing_file:
  assumes "isStoppingIntentionally s"
    and "\<not> isStoppingIntentionally (settle_promise (play_body env filePath s))"
  shows "isPlaying (settle_promise (play_body env filePath s))
         \<and> (\<exists>t. currentTrack (settle_promise (play_body env filePath s)) = Some t
                \<and> t \<noteq> [] \<and> fileExists env t)"
proof (cases "fst (resolveTrack filePath s)")
  case None
  with assms show ?thesis
    by (simp add: play_body_def settle_promise_def emit_def latch_effect latch_resolveTrack)
next
  case (Some t)
  show ?thesis
  proof (cases "t \<noteq> [] \<and> fileExists env t")
    case True
    with Some show ?thesis by (simp add: play_body_def settle_promise_def)
  next
    case False
    with assms Some show ?thesis
      by (auto simp: play_body_def settle_promise_def emit_def emit_error_def latch_effect
          latch_resolveTrack latch_cleanup latch_play split: if_splits)
  qed
qed

lemma microtask_clears_latch:
  assumes "isStoppingIntentionally s" "\<not> isStoppingIntentionally (microtask env s)"
  shows "(\<exists>filePath ks. pending s = PlayBody filePath # ks) \<and> isPlaying (microtask env s)
         \<and> (\<exists>t. currentTrack (microtask env s) = Some t \<and> t \<noteq> [] \<and> fileExists env t)"
proof (cases "pending s")
  case Nil
  with assms show ?thesis by (simp add: microtask_def)
next
  case (Cons k ks)
  show ?thesis
  proof (cases k)
    case (ConfigureDone r c)
    with assms Cons show ?thesis
      by (simp add: microtask_def run_task_def latch_configure_done)
  next
    case (PlayBody filePath)
    have "isStoppingIntentionally (s\<lparr>pending := ks\<rparr>)"
      using assms(1) by simp
    from play_body_clears_latch_only_on_existing_file [OF this, of env filePath]
    show ?thesis
      using assms(2) Cons PlayBody by (simp add: microtask_def run_task_def)
  qed
qed

lemma same_record [simp]:
  "isFFmpegConfigured s \<Longrightarrow> s\<lparr>isFFmpegConfigured := True\<rparr> = s"
  "pending s = [] \<Longrightarrow> s\<lparr>pending := []\<rparr> = s"
  by (cases s; simp)+

lemma play_then_body:
  assumes "\<not> isPlaying s" "pending s = []" "configurable env s"
  shows "(microtask env ^^ hops s) (play env filePath s)
           = settle_promise (play_body env filePath (s\<lparr>isFFmpegConfigured := True\<rparr>))"
proof (cases "isFFmpegConfigured s")
  case True
  with assms show ?thesis
    by (simp add: hops_def play_def configureFFmpeg_def resume_after_configure_def
        enqueue_def microtask_def run_task_def)
next
  case False
  with assms have "detect env s = None" by (simp add: configurable_def)
  with assms False show ?thesis
    by (simp add: hops_def numeral_2_eq_2 play_def configureFFmpeg_def
        resume_after_configure_def enqueue_def microtask_def run_task_def configure_done_def
        settle_promise_def)
qed

text \<open>
  C2, as the code has it. From a state with the latch set, an operation leaves the latch
  clear only if it is the decoder's \<^verbatim>\<open>end\<close> callback, or it is the body of a \<^verbatim>\<open>play\<close>
  that reached a track whose file exists, which is then the current track. Every other
  method, callback and continuation, the call of \<^verbatim>\<open>play\<close> itself included, keeps a set
  latch set. Both do clear it: the \<^verbatim>\<open>end\<close> callback always, \<^verbatim>\<open>play\<close> whenever it is
  called with an existing file on an idle, configurable player with nothing waiting.
\<close>

theorem latch_cleared_only_by_play_or_decoder_end:
  "(isStoppingIntentionally s \<and> \<not> isStoppingIntentionally (step env op s) \<longrightarrow>
      op = FfmpegEnd
      \<or> op = Microtask \<and> (\<exists>filePath ks. pending s = PlayBody filePath # ks)
        \<and> isPlaying (step env op s)
        \<and> (\<exists>t. currentTrack (step env op s) = Some t \<and> t \<noteq> [] \<and> fileExists env t))
   \<and> \<not> isStoppingIntentionally (step env FfmpegEnd s)
   \<and> (\<not> isPlaying s \<and> pending s = [] \<and> configurable env s \<and> t \<noteq> [] \<and> fileExists env t \<longrightarrow>
        \<not> isStoppingIntentionally
            ((microtask env ^^ hops s) (step env (CallPlay (Some t)) s)))"
proof -
  have "op = FfmpegEnd
      \<or> op = Microtask \<and> (\<exists>filePath ks. pending s = PlayBody filePath # ks)
        \<and> isPlaying (step env op s)
        \<and> (\<exists>t. currentTrack (step env op s) = Some t \<and> t \<noteq> [] \<and> fileExists env t)"
    if l: "isStoppingIntentionally s" and c: "\<not> isStoppingIntentionally (step env op s)"
  proof (cases op)
    case (CallPlay fp)
    with l c show ?thesis by (simp add: latch_play)
  next
    case Microtask
    with l c microtask_clears_latch [of s env] show ?thesis by simp
  next
    case (TimerPlay fp)
    with l c show ?thesis by (simp add: latch_play)
  next
    case CallResume
    with l c show ?thesis by (simp add: resume_def latch_play split: if_splits)
  next
    case (MetadataSettled m)
    with l c show ?thesis by (simp add: latch_play_continue)
  next
    case CallPause
    with l c show ?thesis by (simp add: pause_def latch_stop)
  next
    case CallStop
    with l c show ?thesis by (simp add: latch_stop)
  next
    case CallSkip
    with l c show ?thesis by (simp add: skip_def latch_effect latch_stop)
  next
    case CallDestroy
    with l c show ?thesis by (simp add: destroy_def latch_effect latch_cleanup)
  next
    case (CallReconfigure force)
    with l c show ?thesis by (simp add: latch_reconfigureFFmpeg)
  next
    case OnError
    with l c show ?thesis by simp
  next
    case (SpeakerOpen now)
    with l c show ?thesis by (simp add: latch_speaker_on_open)
  next
    case SpeakerClose
    with l c show ?thesis by (simp add: speaker_on_close_def latch_handleTrackEnd)
  next
    case (SpeakerError err)
    with l c show ?thesis
      by (simp add: speaker_on_error_def latch_emit_error_and_cleanup split: if_splits)
         (simp add: settle_callback_def)
  next
    case (FfmpegError err)
    with l c show ?thesis by (simp add: ffmpeg_on_error_def) (simp add: settle_callback_def)
  next
    case FfmpegEnd
    then show ?thesis by simp
  next
    case (ProgressTick now)
    with l c show ?thesis by (simp add: progress_tick_def emit_def latch_effect split: if_splits)
  next
    case (QueueAdd t)
    with l c show ?thesis by simp
  next
    case QueueGetNext
    with l c show ?thesis by (simp add: queue_getNext_def)
  next
    case QueueClear
    with l c show ?thesis by simp
  qed
  moreover have "\<not> isStoppingIntentionally
            ((microtask env ^^ hops s) (step env (CallPlay (Some t)) s))"
    if "\<not> isPlaying s" "pending s = []" "configurable env s" "t \<noteq> []" "fileExists env t"
    using play_then_body [OF that(1-3), of "Some t"] that(4,5)
    by (simp add: play_body_def resolveTrack_def truthy_def settle_promise_def)
  ultimately show ?thesis by (simp add: ffmpeg_on_end_def)
qed

theorem latch_cleared_only_by_play_or_decoder_end_witness:
  "isStoppingIntentionally (step env_ok (CallPlay None) (stop playing_example))
   \<and> \<not> isStoppingIntentionally
        (step env_ok Microtask (step env_ok (CallPlay None) (stop playing_example)))
   \<and> pending (step env_ok (CallPlay None) (stop playing_example)) = [PlayBody None]
   \<and> isPlaying (step env_ok Microtask (step env_ok (CallPlay None) (stop playing_example)))
   \<and> currentTrack (step env_ok Microtask (step env_ok (CallPlay None) (stop playing_example)))
       = Some ''b.mp3''
   \<and> fileExists env_ok ''b.mp3''"
  using latch_cleared_only_by_play_or_decoder_end
          [of "step env_ok (CallPlay None) (stop playing_example)" env_ok Microtask]
  by (simp add: stop_playing_example_eq env_ok_def play_def configureFFmpeg_def
      resume_after_configure_def enqueue_def microtask_def run_task_def settle_promise_def
      play_body_def resolveTrack_def truthy_def queue_getNext_def getNext_def cleanup_def
      end_speaker_def kill_ffmpeg_def stopProgressTracker_def)

text \<open>
  C2 as stated fails: after \<^verbatim>\<open>stop()\<close> the latch is set, and the decoder's \<^verbatim>\<open>end\<close>
  callback, which is no part of \<^verbatim>\<open>play\<close>, clears it.
\<close>

theorem latch_cleared_by_decoder_end_counterexample:
  "isStoppingIntentionally (stop playing_example)
   \<and> \<not> isStoppingIntentionally (step env_ok FfmpegEnd (stop playing_example))
   \<and> FfmpegEnd \<noteq> Microtask \<and> FfmpegEnd \<noteq> CallPlay None"
  by (simp add: stop_playing_example_eq ffmpeg_on_end_def)

lemma events_append: "events (xs @ ys) = events xs @ events ys"
  by (induction xs rule: events.induct) simp_all

lemma failures_append: "failures (xs @ ys) = failures xs @ failures ys"
  by (induction xs rule: failures.induct) simp_all

lemma events_cleanup: "events (trace (cleanup s)) = events (trace s)"
  by (simp add: trace_cleanup events_append split: option.splits)

lemma failures_cleanup: "failures (trace (cleanup s)) = failures (trace s)"
  by (simp add: trace_cleanup failures_append split: option.splits)

lemma play_body_missing_file:
  assumes "fst (resolveTrack filePath s) = Some t" "t \<noteq> []" "\<not> fileExists env t"
    "errorListeners s \<noteq> 0"
  shows "play_body env filePath s =
           Returned (play env None
                       (effect (Emit (EvError (file_not_found t)))
                          (cleanup (snd (resolveTrack filePath s)))))"
proof -
  have "errorListeners (cleanup (snd (resolveTrack filePath s))) \<noteq> 0"
    using assms(4) by (simp add: cleanup_keeps resolveTrack_def queue_getNext_def)
  with assms(1-3) show ?thesis
    by (simp add: play_body_def emit_error_def)
qed

lemma retries_drain:
  "isFFmpegConfigured s \<Longrightarrow> \<not> isPlaying s \<Longrightarrow> pending s = [PlayBody filePath] \<Longrightarrow>
   errorListeners s \<noteq> 0 \<Longrightarrow>
   \<forall>t \<in> set (audioQueue s). t \<noteq> [] \<and> \<not> fileExists env t \<Longrightarrow>
   \<forall>t. filePath = Some t \<longrightarrow> \<not> fileExists env t \<Longrightarrow>
   n = length (explicit_track filePath @ audioQueue s) \<Longrightarrow>
   pending ((microtask env ^^ Suc n) s) = []
   \<and> audioQueue ((microtask env ^^ Suc n) s) = []
   \<and> \<not> isPlaying ((microtask env ^^ Suc n) s)
   \<and> events (trace ((microtask env ^^ Suc n) s)) = events (trace s)
       @ map (\<lambda>t. EvError (file_not_found t)) (explicit_track filePath @ audioQueue s)
       @ [EvQueueEnd]
   \<and> failures (trace ((microtask env ^^ Suc n) s)) = failures (trace s)"
proof (induction n arbitrary: s filePath)
  case 0
  then have q: "audioQueue s = []" and fp: "explicit_track filePath = []"
    by simp_all
  from fp have "\<not> truthy filePath"
    by (auto simp: explicit_track_def truthy_def split: option.splits if_splits)
  with q have "play_body env filePath (s\<lparr>pending := []\<rparr>)
                 = Returned (emit EvQueueEnd (s\<lparr>pending := [], audioQueue := []\<rparr>))"
    by (simp add: play_body_def resolveTrack_def queue_getNext_def getNext_def)
  then show ?case
    using "0.prems" q fp
    by (simp add: microtask_def run_task_def settle_promise_def emit_def effect_def
        events_append failures_append)
next
  case (Suc n)
  define s0 where "s0 = s\<lparr>pending := []\<rparr>"
  define s2 where "s2 = snd (resolveTrack filePath s0)"
  obtain t where split: "explicit_track filePath @ audioQueue s = t # audioQueue s2"
    and res: "fst (resolveTrack filePath s0) = Some t"
    and ne: "t \<noteq> []" and miss: "\<not> fileExists env t"
  proof (cases "truthy filePath")
    case True
    then obtain t where "filePath = Some t" "t \<noteq> []"
      by (auto simp: truthy_def split: option.splits)
    with True Suc.prems(6) that [of t] show ?thesis
      by (simp add: explicit_track_def s2_def s0_def resolveTrack_def)
  next
    case False
    then have e: "explicit_track filePath = []"
      by (auto simp: explicit_track_def truthy_def split: option.splits)
    with Suc.prems(7) obtain t q where "audioQueue s = t # q"
      by (cases "audioQueue s") simp_all
    with False e Suc.prems(5) that [of t] show ?thesis
      by (simp add: s2_def s0_def resolveTrack_def queue_getNext_def getNext_def)
  qed
  have sub: "set (audioQueue s2) \<subseteq> set (audioQueue s)"
    by (auto simp: s2_def s0_def resolveTrack_def queue_getNext_def getNext_def
        split: if_splits list.splits)
  have s2: "trace s2 = trace s" "isFFmpegConfigured s2" "errorListeners s2 \<noteq> 0"
    "pending s2 = []"
    using Suc.prems by (simp_all add: s2_def s0_def resolveTrack_def queue_getNext_def)
  define s4 where "s4 = effect (Emit (EvError (file_not_found t))) (cleanup s2)"
  define s5 where "s5 = play env None s4"
  have s4: "\<not> isPlaying s4" "isFFmpegConfigured s4" "pending s4 = []"
    using s2 by (simp_all add: s4_def effect_def cleanup_fields cleanup_keeps)
  have s5: "s5 = s4\<lparr>pending := [PlayBody None]\<rparr>"
    using s4 by (simp add: s5_def play_def configureFFmpeg_def resume_after_configure_def
        enqueue_def)
  have first: "microtask env s = s5"
    using play_body_missing_file [OF res ne miss] Suc.prems(3,4)
    by (simp add: microtask_def run_task_def settle_promise_def s0_def s2_def s4_def s5_def)
  have p5: "isFFmpegConfigured s5" "\<not> isPlaying s5" "pending s5 = [PlayBody None]"
    "errorListeners s5 \<noteq> 0" "audioQueue s5 = audioQueue s2"
    "events (trace s5) = events (trace s) @ [EvError (file_not_found t)]"
    "failures (trace s5) = failures (trace s)"
    using s4 s2
    by (simp_all add: s5 s4_def effect_def cleanup_keeps audioQueue_cleanup events_append
        failures_append events_cleanup failures_cleanup)
  have q5: "\<forall>t \<in> set (audioQueue s5). t \<noteq> [] \<and> \<not> fileExists env t"
    using sub p5(5) Suc.prems(5) by auto
  have "n = length (audioQueue s2)"
    using Suc.prems(7) unfolding split by simp
  then have n5: "n = length (explicit_track None @ audioQueue s5)"
    using p5(5) by (simp add: explicit_track_def)
  have "(microtask env ^^ Suc (Suc n)) s = (microtask env ^^ Suc n) s5"
    using first by (simp add: funpow_swap1)
  moreover have "explicit_track None @ audioQueue s5 = audioQueue s2"
    using p5(5) by (simp add: explicit_track_def)
  ultimately show ?case
    using Suc.IH [OF p5(1-4) q5 _ n5] p5(6,7) unfolding split by simp
qed

lemma play_reaches_body:
  assumes "\<not> isPlaying s" "pending s = []" "configurable env s"
  shows "(microtask env ^^ (hops s - 1)) (play env filePath s)
           = s\<lparr>isFFmpegConfigured := True, pending := [PlayBody filePath]\<rparr>"
proof (cases "isFFmpegConfigured s")
  case True
  with assms show ?thesis
    by (simp add: hops_def play_def configureFFmpeg_def resume_after_configure_def enqueue_def)
next
  case False
  with assms have "detect env s = None" by (simp add: configurable_def)
  with assms False show ?thesis
    by (simp add: hops_def play_def configureFFmpeg_def resume_after_configure_def
        enqueue_def microtask_def run_task_def configure_done_def settle_promise_def)
qed

text \<open>
  C6, as the code has it. With a listener registered for \<^verbatim>\<open>error\<close>, the body of
  \<^verbatim>\<open>play\<close>, when it resolves a non-empty path whose file does not exist, tears down,
  emits one \<^verbatim>\<open>error\<close> event for that path and calls \<^verbatim>\<open>this.play()\<close>. On an idle
  player with such a listener and nothing waiting, whose FFmpeg configuration succeeds,
  with a queue of non-empty paths none of which exists (and an argument that is absent
  or names no existing file), a call of \<^verbatim>\<open>play\<close> and the microtasks that follow it
  leave nothing waiting and the queue empty; the events emitted are one \<^verbatim>\<open>error\<close> per
  path, in order, followed by one \<^verbatim>\<open>queue-end\<close>; and no promise is rejected.
\<close>

theorem missing_files_drain_queue:
  "(fst (resolveTrack filePath s) = Some t \<and> t \<noteq> [] \<and> \<not> fileExists env t
      \<and> errorListeners s \<noteq> 0 \<longrightarrow>
      play_body env filePath s =
        Returned (play env None
                    (effect (Emit (EvError (file_not_found t)))
                       (cleanup (snd (resolveTrack filePath s))))))
   \<and> (\<not> isPlaying s \<and> pending s = [] \<and> configurable env s \<and> errorListeners s \<noteq> 0
        \<and> (\<forall>t \<in> set (audioQueue s). t \<noteq> [] \<and> \<not> fileExists env t)
        \<and> (\<forall>t. filePath = Some t \<longrightarrow> \<not> fileExists env t) \<longrightarrow>
        pending (play_and_retries env filePath s) = []
        \<and> audioQueue (play_and_retries env filePath s) = []
        \<and> \<not> isPlaying (play_and_retries env filePath s)
        \<and> events (trace (play_and_retries env filePath s)) = events (trace s)
            @ map (\<lambda>t. EvError (file_not_found t)) (explicit_track filePath @ audioQueue s)
            @ [EvQueueEnd]
        \<and> failures (trace (play_and_retries env filePath s)) = failures (trace s))"
proof -
  have "pending (play_and_retries env filePath s) = []
        \<and> audioQueue (play_and_retries env filePath s) = []
        \<and> \<not> isPlaying (play_and_retries env filePath s)
        \<and> events (trace (play_and_retries env filePath s)) = events (trace s)
            @ map (\<lambda>t. EvError (file_not_found t)) (explicit_track filePath @ audioQueue s)
            @ [EvQueueEnd]
        \<and> failures (trace (play_and_retries env filePath s)) = failures (trace s)"
    if h: "\<not> isPlaying s" "pending s = []" "configurable env s" "errorListeners s \<noteq> 0"
      "\<forall>t \<in> set (audioQueue s). t \<noteq> [] \<and> \<not> fileExists env t"
      "\<forall>t. filePath = Some t \<longrightarrow> \<not> fileExists env t"
  proof -
    define n where "n = length (explicit_track filePath @ audioQueue s)"
    define s1 where "s1 = s\<lparr>isFFmpegConfigured := True, pending := [PlayBody filePath]\<rparr>"
    have "hops s + n = Suc n + (hops s - 1)"
      by (simp add: hops_def)
    then have "play_and_retries env filePath s
                 = (microtask env ^^ Suc n) ((microtask env ^^ (hops s - 1)) (play env filePath s))"
      unfolding play_and_retries_def n_def [symmetric] by (simp only: funpow_add o_apply)
    then have eq: "play_and_retries env filePath s = (microtask env ^^ Suc n) s1"
      using play_reaches_body [OF h(1-3)] by (simp add: s1_def)
    have "n = length (explicit_track filePath @ audioQueue s1)"
      by (simp add: n_def s1_def)
    from retries_drain [where env = env, OF _ _ _ _ _ h(6) this] h
    show ?thesis
      unfolding eq by (simp add: s1_def)
  qed
  with play_body_missing_file [of filePath s t env] show ?thesis by blast
qed

lemma listening_player_eq:
  "listening_player q = (new_player q False)\<lparr>errorListeners := 1\<rparr>"
  by (simp add: listening_player_def new_player_def)

lemma play_missing_then_b_example:
  "(microtask env_only_b ^^ 3)
     (play env_only_b (Some ''missing.mp3'') (listening_player [''b.mp3'']))
   = (new_player [] False)
       \<lparr>isFFmpegConfigured := True, isPlaying := True, currentTrack := Some ''b.mp3'',
        errorListeners := 1,
        trace := [(Emit (EvError (file_not_found ''missing.mp3'')), False)]\<rparr>"
  by (simp add: numeral_3_eq_3 listening_player_eq env_only_b_def new_player_def play_def
      configureFFmpeg_def detect_def enqueue_def microtask_def run_task_def configure_done_def
      resume_after_configure_def settle_promise_def play_body_def emit_error_def
      resolveTrack_def truthy_def queue_getNext_def getNext_def cleanup_def end_speaker_def
      kill_ffmpeg_def stopProgressTracker_def effect_def)

theorem missing_files_drain_queue_witness:
  "\<not> isPlaying (listening_player [''x.mp3'', ''y.mp3''])
   \<and> pending (listening_player [''x.mp3'', ''y.mp3'']) = []
   \<and> configurable env_missing (listening_player [''x.mp3'', ''y.mp3''])
   \<and> errorListeners (listening_player [''x.mp3'', ''y.mp3'']) \<noteq> 0
   \<and> \<not> fileExists env_missing ''missing.mp3''
   \<and> \<not> fileExists env_missing ''x.mp3'' \<and> \<not> fileExists env_missing ''y.mp3''
   \<and> pending (play_and_retries env_missing (Some ''missing.mp3'')
                (listening_player [''x.mp3'', ''y.mp3''])) = []
   \<and> audioQueue (play_and_retries env_missing (Some ''missing.mp3'')
                   (listening_player [''x.mp3'', ''y.mp3''])) = []
   \<and> events (trace (play_and_retries env_missing (Some ''missing.mp3'')
                       (listening_player [''x.mp3'', ''y.mp3'']))) =
         [EvError (file_not_found ''missing.mp3''), EvError (file_not_found ''x.mp3''),
          EvError (file_not_found ''y.mp3''), EvQueueEnd]
   \<and> failures (trace (play_and_retries env_missing (Some ''missing.mp3'')
                         (listening_player [''x.mp3'', ''y.mp3'']))) = []
   \<and> (microtask env_only_b ^^ 3)
        (play env_only_b (Some ''missing.mp3'') (listening_player [''b.mp3'']))
      = (new_player [] False)
          \<lparr>isFFmpegConfigured := True, isPlaying := True, currentTrack := Some ''b.mp3'',
           errorListeners := 1,
           trace := [(Emit (EvError (file_not_found ''missing.mp3'')), False)]\<rparr>"
  using missing_files_drain_queue [of "Some ''missing.mp3''"
      "listening_player [''x.mp3'', ''y.mp3'']" "''missing.mp3''" env_missing]
    play_missing_then_b_example
  by (simp add: listening_player_eq env_missing_def new_player_def configurable_def
      detect_def explicit_track_def)

text \<open>
  C6 as stated fails on a player on which no listener for \<^verbatim>\<open>error\<close> is registered:
  \<^verbatim>\<open>play('missing.mp3')\<close> on a new player, the file not existing, ends after its two
  microtasks with the promise rejected by the error that \<^verbatim>\<open>emit\<close> threw, with no
  retry waiting, and with no event emitted, neither \<^verbatim>\<open>error\<close> nor \<^verbatim>\<open>queue-end\<close>.
\<close>

theorem no_listener_no_retry_counterexample:
  "\<not> isPlaying (new_player [] False) \<and> \<not> fileExists env_missing ''missing.mp3''
   \<and> (microtask env_missing ^^ 2)
        (play env_missing (Some ''missing.mp3'') (new_player [] False))
      = (new_player [] False)
          \<lparr>isFFmpegConfigured := True,
           trace := [(Rejected (file_not_found ''missing.mp3''), False)]\<rparr>
   \<and> pending ((microtask env_missing ^^ 2)
                (play env_missing (Some ''missing.mp3'') (new_player [] False))) = []
   \<and> events (trace ((microtask env_missing ^^ 2)
                      (play env_missing (Some ''missing.mp3'') (new_player [] False)))) = []"
  by (simp add: numeral_2_eq_2 env_missing_def new_player_def play_def
      configureFFmpeg_def detect_def enqueue_def microtask_def run_task_def configure_done_def
      resume_after_configure_def settle_promise_def play_body_def emit_error_def
      resolveTrack_def truthy_def cleanup_def end_speaker_def
      kill_ffmpeg_def stopProgressTracker_def effect_def)

lemma trace_cleanup_calls:
  "trace (cleanup s) = trace s @ map (\<lambda>a. (a, isStoppingIntentionally s)) (teardown_calls s)"
  by (simp add: trace_cleanup teardown_calls_def split: option.splits)

lemma issued_handleTrackEnd:
  assumes "\<not> isStoppingIntentionally s"
  shows "issued handleTrackEnd s =
           (Emit (EvEnd (currentTrack s)), False)
           # map (\<lambda>a. (a, False)) (teardown_calls s)
           @ [(case audioQueue s of
                 [] \<Rightarrow> Emit EvQueueEnd
               | t # q \<Rightarrow> if t = [] then Emit EvQueueEnd else SetTimeout (Some t) 100, False)]"
proof -
  have t: "teardown_calls (s\<lparr>trace := x\<rparr>) = teardown_calls s" for x
    by (simp add: teardown_calls_def)
  show ?thesis
    using assms
    by (cases "audioQueue s")
       (simp_all add: issued_def handleTrackEnd_def Let_def queue_getNext_def getNext_def
         truthy_def audioQueue_cleanup trace_cleanup_calls cleanup_keeps emit_def effect_def t)
qed

lemma handleTrackEnd_fields:
  assumes "\<not> isStoppingIntentionally s"
  shows "currentTrack (handleTrackEnd s) = None" "\<not> isPlaying (handleTrackEnd s)"
    "ffmpegCommand (handleTrackEnd s) = None" "speaker (handleTrackEnd s) = None"
    "progressInterval (handleTrackEnd s) = None"
    "audioQueue (handleTrackEnd s) = snd (getNext (audioQueue s))"
    "isFFmpegConfigured (handleTrackEnd s) = isFFmpegConfigured s"
    "forceNativeFFmpeg (handleTrackEnd s) = forceNativeFFmpeg s"
    "pending (handleTrackEnd s) = pending s"
    "isStoppingIntentionally (handleTrackEnd s) = isStoppingIntentionally s"
  using assms
  by (simp_all add: handleTrackEnd_def Let_def queue_getNext_def emit_def effect_def
      cleanup_fields audioQueue_cleanup cleanup_keeps)

lemma cleanup_idle:
  "progressInterval s = None \<Longrightarrow> ffmpegCommand s = None \<Longrightarrow> speaker s = None \<Longrightarrow>
   trace (cleanup s) = trace s"
  by (simp add: trace_cleanup)

lemma next_track_starts:
  assumes idle: "\<not> isPlaying s" "progressInterval s = None" "ffmpegCommand s = None"
      "speaker s = None" "pending s = []"
    and env: "configurable env s" "t \<noteq> []" "fileExists env t" "newSpeaker env m = None"
  shows "currentTrack ((microtask env ^^ hops s) (step env (TimerPlay (Some t)) s)) = Some t"
    "isPlaying ((microtask env ^^ hops s) (step env (TimerPlay (Some t)) s))"
    "trace ((microtask env ^^ hops s) (step env (TimerPlay (Some t)) s)) = trace s"
    "trace (step env (SpeakerOpen now)
              (step env (MetadataSettled (Inr m))
                 ((microtask env ^^ hops s) (step env (TimerPlay (Some t)) s))))
       = trace s @ [(Pipe (FfmpegCommand (Some t) (channels m) (sampleRate m))
                       (Speaker (channels m) (bitDepth m) (sampleRate m)), False),
                    (Emit (EvStart (Some t)), False), (SetInterval 1000, False)]"
    "speaker (step env (SpeakerOpen now)
              (step env (MetadataSettled (Inr m))
                 ((microtask env ^^ hops s) (step env (TimerPlay (Some t)) s))))
       = Some (Speaker (channels m) (bitDepth m) (sampleRate m))"
    "ffmpegCommand (step env (SpeakerOpen now)
              (step env (MetadataSettled (Inr m))
                 ((microtask env ^^ hops s) (step env (TimerPlay (Some t)) s))))
       = Some (FfmpegCommand (Some t) (channels m) (sampleRate m))"
proof -
  define s1 where "s1 = s\<lparr>isFFmpegConfigured := True\<rparr>"
  define s2 where "s2 = (cleanup s1)\<lparr>currentTrack := Some t, isPlaying := True,
                           isPaused := False, isStoppingIntentionally := False\<rparr>"
  have p: "(microtask env ^^ hops s) (step env (TimerPlay (Some t)) s) = s2"
    using play_then_body [OF idle(1) idle(5) env(1), of "Some t"] env(2,3)
    by (simp add: play_body_def resolveTrack_def truthy_def settle_promise_def s2_def s1_def)
  have f2: "trace s2 = trace s" "progressInterval s2 = None" "currentTrack s2 = Some t"
    "isPlaying s2" "\<not> isStoppingIntentionally s2"
    using idle by (simp_all add: s2_def s1_def cleanup_idle cleanup_fields)
  show "currentTrack ((microtask env ^^ hops s) (step env (TimerPlay (Some t)) s)) = Some t"
    "isPlaying ((microtask env ^^ hops s) (step env (TimerPlay (Some t)) s))"
    "trace ((microtask env ^^ hops s) (step env (TimerPlay (Some t)) s)) = trace s"
    unfolding p using f2 by simp_all
  show "trace (step env (SpeakerOpen now)
              (step env (MetadataSettled (Inr m))
                 ((microtask env ^^ hops s) (step env (TimerPlay (Some t)) s))))
       = trace s @ [(Pipe (FfmpegCommand (Some t) (channels m) (sampleRate m))
                       (Speaker (channels m) (bitDepth m) (sampleRate m)), False),
                    (Emit (EvStart (Some t)), False), (SetInterval 1000, False)]"
    "speaker (step env (SpeakerOpen now)
              (step env (MetadataSettled (Inr m))
                 ((microtask env ^^ hops s) (step env (TimerPlay (Some t)) s))))
       = Some (Speaker (channels m) (bitDepth m) (sampleRate m))"
    "ffmpegCommand (step env (SpeakerOpen now)
              (step env (MetadataSettled (Inr m))
                 ((microtask env ^^ hops s) (step env (TimerPlay (Some t)) s))))
       = Some (FfmpegCommand (Some t) (channels m) (sampleRate m))"
    unfolding p using f2 env(4)
    by (simp_all add: play_continue_def settle_promise_def speaker_on_open_def
        startProgressTracker_def stopProgressTracker_def emit_def effect_def)
qed

text \<open>
  C4, as the code has it. The sink's \<^verbatim>\<open>close\<close> callback with the latch clear first
  emits one \<^verbatim>\<open>end\<close> event for the track that was current, then makes the calls of
  the teardown, which leaves the session fields reset, and then advances. With an empty
  queue it emits one \<^verbatim>\<open>queue-end\<close> and sets no timer. With a queue whose head is a
  non-empty path it emits nothing more, removes the head and sets one timer of 100 ms
  for \<^verbatim>\<open>play\<close> of that path. When the timer fires on the state the callback left,
  with nothing waiting, FFmpeg configurable and the file existing, the microtasks of
  \<^verbatim>\<open>play\<close> make that path the current track without issuing anything; when the probe
  then settles and the speaker can be built, sink and decoder for that path are built
  and piped, and the opening of the speaker emits one \<^verbatim>\<open>start\<close> for that path and
  starts the progress timer.
\<close>

theorem natural_end_advances:
  assumes "\<not> isStoppingIntentionally s"
  shows "(audioQueue s = [] \<longrightarrow>
            issued speaker_on_close s =
              (Emit (EvEnd (currentTrack s)), False)
              # map (\<lambda>a. (a, False)) (teardown_calls s) @ [(Emit EvQueueEnd, False)]
            \<and> audioQueue (speaker_on_close s) = [])
       \<and> (audioQueue s = t # q \<and> t \<noteq> [] \<longrightarrow>
            issued speaker_on_close s =
              (Emit (EvEnd (currentTrack s)), False)
              # map (\<lambda>a. (a, False)) (teardown_calls s) @ [(SetTimeout (Some t) 100, False)]
            \<and> audioQueue (speaker_on_close s) = q)
       \<and> currentTrack (speaker_on_close s) = None \<and> \<not> isPlaying (speaker_on_close s)
       \<and> ffmpegCommand (speaker_on_close s) = None \<and> speaker (speaker_on_close s) = None
       \<and> progressInterval (speaker_on_close s) = None
       \<and> (audioQueue s = t # q \<and> t \<noteq> [] \<and> pending s = [] \<and> configurable env s
            \<and> fileExists env t \<and> newSpeaker env m = None \<longrightarrow>
            currentTrack ((microtask env ^^ hops s)
                            (step env (TimerPlay (Some t)) (speaker_on_close s))) = Some t
            \<and> isPlaying ((microtask env ^^ hops s)
                            (step env (TimerPlay (Some t)) (speaker_on_close s)))
            \<and> issued (\<lambda>x. (microtask env ^^ hops s) (step env (TimerPlay (Some t)) x))
                 (speaker_on_close s) = []
            \<and> issued (\<lambda>x. step env (SpeakerOpen now)
                             (step env (MetadataSettled (Inr m))
                                ((microtask env ^^ hops s) (step env (TimerPlay (Some t)) x))))
                 (speaker_on_close s)
               = [(Pipe (FfmpegCommand (Some t) (channels m) (sampleRate m))
                        (Speaker (channels m) (bitDepth m) (sampleRate m)), False),
                  (Emit (EvStart (Some t)), False), (SetInterval 1000, False)]
            \<and> speaker (step env (SpeakerOpen now)
                          (step env (MetadataSettled (Inr m))
                             ((microtask env ^^ hops s)
                                (step env (TimerPlay (Some t)) (speaker_on_close s)))))
               = Some (Speaker (channels m) (bitDepth m) (sampleRate m))
            \<and> ffmpegCommand (step env (SpeakerOpen now)
                          (step env (MetadataSettled (Inr m))
                             ((microtask env ^^ hops s)
                                (step env (TimerPlay (Some t)) (speaker_on_close s)))))
               = Some (FfmpegCommand (Some t) (channels m) (sampleRate m)))"
proof -
  have eq: "speaker_on_close = handleTrackEnd"
    by (rule ext) (simp add: speaker_on_close_def)
  note f = handleTrackEnd_fields [OF assms]
  note i = issued_handleTrackEnd [OF assms]
  have empty: "issued handleTrackEnd s =
              (Emit (EvEnd (currentTrack s)), False)
              # map (\<lambda>a. (a, False)) (teardown_calls s) @ [(Emit EvQueueEnd, False)]
            \<and> audioQueue (handleTrackEnd s) = []"
    if "audioQueue s = []"
    using that i f(6) by (simp add: getNext_def)
  have head: "issued handleTrackEnd s =
              (Emit (EvEnd (currentTrack s)), False)
              # map (\<lambda>a. (a, False)) (teardown_calls s) @ [(SetTimeout (Some t) 100, False)]
            \<and> audioQueue (handleTrackEnd s) = q"
    if "audioQueue s = t # q" "t \<noteq> []"
    using that i f(6) by (simp add: getNext_def)
  have start: "currentTrack ((microtask env ^^ hops s)
                            (step env (TimerPlay (Some t)) (handleTrackEnd s))) = Some t
            \<and> isPlaying ((microtask env ^^ hops s)
                            (step env (TimerPlay (Some t)) (handleTrackEnd s)))
            \<and> issued (\<lambda>x. (microtask env ^^ hops s) (step env (TimerPlay (Some t)) x))
                 (handleTrackEnd s) = []
            \<and> issued (\<lambda>x. step env (SpeakerOpen now)
                             (step env (MetadataSettled (Inr m))
                                ((microtask env ^^ hops s) (step env (TimerPlay (Some t)) x))))
                 (handleTrackEnd s)
               = [(Pipe (FfmpegCommand (Some t) (channels m) (sampleRate m))
                        (Speaker (channels m) (bitDepth m) (sampleRate m)), False),
                  (Emit (EvStart (Some t)), False), (SetInterval 1000, False)]
            \<and> speaker (step env (SpeakerOpen now)
                          (step env (MetadataSettled (Inr m))
                             ((microtask env ^^ hops s)
                                (step env (TimerPlay (Some t)) (handleTrackEnd s)))))
               = Some (Speaker (channels m) (bitDepth m) (sampleRate m))
            \<and> ffmpegCommand (step env (SpeakerOpen now)
                          (step env (MetadataSettled (Inr m))
                             ((microtask env ^^ hops s)
                                (step env (TimerPlay (Some t)) (handleTrackEnd s)))))
               = Some (FfmpegCommand (Some t) (channels m) (sampleRate m))"
    if h: "audioQueue s = t # q" "t \<noteq> []" "pending s = []" "configurable env s"
      "fileExists env t" "newSpeaker env m = None"
  proof -
    have c: "configurable env (handleTrackEnd s)"
      using h(4) f(7,8) by (simp add: configurable_def detect_def)
    have hp: "hops (handleTrackEnd s) = hops s"
      using f(7) by (simp add: hops_def)
    have pe: "pending (handleTrackEnd s) = []"
      using h(3) f(9) by simp
    note n = next_track_starts [OF f(2) f(5) f(3) f(4) pe c h(2) h(5) h(6), unfolded hp]
    show ?thesis
      using n by (simp add: issued_def)
  qed
  from empty head f start show ?thesis
    unfolding eq by blast
qed

lemma last_track_example_eq:
  "last_track_example =
     \<lparr> audioQueue = [], forceNativeFFmpeg = False, isFFmpegConfigured = True,
       isPlaying = True, isPaused = False, currentTrack = Some ''a.mp3'', pausedTime = 0,
       ffmpegCommand = Some (FfmpegCommand (Some ''a.mp3'') 2 44100),
       speaker = Some (Speaker 2 16 44100), startTime = 5000, progressInterval = Some 1000,
       isStoppingIntentionally = False, errorListeners = 1, pending = [],
       trace = [(Pipe (FfmpegCommand (Some ''a.mp3'') 2 44100) (Speaker 2 16 44100), False),
                (Emit (EvStart (Some ''a.mp3'')), False), (SetInterval 1000, False)] \<rparr>"
  by (simp add: last_track_example_def listening_player_eq env_ok_def stereo_def
      new_player_def play_def configureFFmpeg_def detect_def enqueue_def microtask_def
      run_task_def configure_done_def resume_after_configure_def settle_promise_def
      play_body_def resolveTrack_def truthy_def queue_getNext_def getNext_def cleanup_def
      end_speaker_def kill_ffmpeg_def stopProgressTracker_def
      startProgressTracker_def speaker_on_open_def play_continue_def emit_def effect_def)

theorem natural_end_advances_witness:
  "\<not> isStoppingIntentionally playing_example
   \<and> issued speaker_on_close playing_example =
       [(Emit (EvEnd (Some ''a.mp3'')), False), (ClearInterval, False),
        (Kill (FfmpegCommand (Some ''a.mp3'') 2 44100), False),
        (EndSink (Speaker 2 16 44100), False), (SetTimeout (Some ''b.mp3'') 100, False)]
   \<and> issued (\<lambda>x. step env_ok (SpeakerOpen 9000)
                    (step env_ok (MetadataSettled (Inr stereo))
                       ((microtask env_ok ^^ hops playing_example)
                          (step env_ok (TimerPlay (Some ''b.mp3'')) x))))
        (speaker_on_close playing_example)
      = [(Pipe (FfmpegCommand (Some ''b.mp3'') 2 44100) (Speaker 2 16 44100), False),
         (Emit (EvStart (Some ''b.mp3'')), False), (SetInterval 1000, False)]
   \<and> \<not> isStoppingIntentionally last_track_example
   \<and> issued speaker_on_close last_track_example =
       [(Emit (EvEnd (Some ''a.mp3'')), False), (ClearInterval, False),
        (Kill (FfmpegCommand (Some ''a.mp3'') 2 44100), False),
        (EndSink (Speaker 2 16 44100), False), (Emit EvQueueEnd, False)]"
  using natural_end_advances [where s = playing_example and t = "''b.mp3''" and q = "[]"
      and env = env_ok and m = stereo and now = 9000]
    natural_end_advances [where s = last_track_example and t = "''b.mp3''" and q = "[]"
      and env = env_ok and m = stereo and now = 9000]
  by (simp add: playing_example_eq last_track_example_eq configurable_def teardown_calls_def)
     (simp add: env_ok_def stereo_def)

text \<open>
  C4 as stated fails when the file of the next queued track does not exist: after the
  natural end of \<^verbatim>\<open>a.mp3\<close> with \<^verbatim>\<open>b.mp3\<close> queued, the delayed \<^verbatim>\<open>play\<close> of
  \<^verbatim>\<open>b.mp3\<close> produces no \<^verbatim>\<open>start\<close>; it emits \<^verbatim>\<open>error\<close> and its retry emits
  \<^verbatim>\<open>queue-end\<close>, although the queue was not empty when the sink closed.
\<close>

theorem next_file_missing_counterexample:
  "\<not> isStoppingIntentionally playing_example \<and> audioQueue playing_example = [''b.mp3'']
   \<and> \<not> fileExists env_missing ''b.mp3''
   \<and> issued speaker_on_close playing_example =
       [(Emit (EvEnd (Some ''a.mp3'')), False), (ClearInterval, False),
        (Kill (FfmpegCommand (Some ''a.mp3'') 2 44100), False),
        (EndSink (Speaker 2 16 44100), False), (SetTimeout (Some ''b.mp3'') 100, False)]
   \<and> issued (\<lambda>x. (microtask env_missing ^^ 2) (step env_missing (TimerPlay (Some ''b.mp3'')) x))
        (speaker_on_close playing_example)
      = [(Emit (EvError (file_not_found ''b.mp3'')), False), (Emit EvQueueEnd, False)]
   \<and> pending ((microtask env_missing ^^ 2)
                (step env_missing (TimerPlay (Some ''b.mp3''))
                   (speaker_on_close playing_example))) = []
   \<and> \<not> isPlaying ((microtask env_missing ^^ 2)
                (step env_missing (TimerPlay (Some ''b.mp3''))
                   (speaker_on_close playing_example)))"
  by (simp add: numeral_2_eq_2 issued_def playing_example_eq env_missing_def
      speaker_on_close_def handleTrackEnd_def Let_def play_def
      configureFFmpeg_def detect_def enqueue_def microtask_def run_task_def configure_done_def
      resume_after_configure_def settle_promise_def play_body_def emit_error_def
      resolveTrack_def truthy_def queue_getNext_def getNext_def cleanup_def end_speaker_def
      kill_ffmpeg_def stopProgressTracker_def emit_def effect_def)

lemma qrun_append:
  "qrun (xs @ ys) q =
     (fst (qrun xs q) @ fst (qrun ys (snd (qrun xs q))), snd (qrun ys (snd (qrun xs q))))"
proof (induction xs q rule: qrun.induct)
  case (3 ops q)
  then show ?case by (cases q) (simp_all add: getNext_def)
qed simp_all

lemma qrun_fifo:
  "QClear \<notin> set ops \<Longrightarrow> fst (qrun ops q) @ snd (qrun ops q) = q @ added ops"
proof (induction ops q rule: qrun.induct)
  case (3 ops q)
  then show ?case by (cases q) (simp_all add: getNext_def)
qed (simp_all add: add_def peek_def split: list.splits)

text \<open>
  C8, on the queue as the specification describes it. For every sequence of \<^verbatim>\<open>add\<close>,
  \<^verbatim>\<open>getNext\<close> and \<^verbatim>\<open>peek\<close> from any queue, the tracks handed out by \<^verbatim>\<open>getNext\<close>
  followed by the entries that remain are the initial entries followed by the added
  ones, in order (first in, first out); a \<^verbatim>\<open>clear\<close> in a sequence makes what follows
  run from the empty queue. \<^verbatim>\<open>peek\<close> returns what \<^verbatim>\<open>getNext\<close> would and leaves the
  queue as it is; \<^verbatim>\<open>getNext\<close> on the empty queue returns the absent value and on a
  non-empty one removes and returns the head. \<^verbatim>\<open>list()\<close> returns the address of a new
  array with the entries of the queue's array, so of the same length; it leaves the
  queue's array as it is, and so does any later write to the returned array.
\<close>

theorem queue_fifo:
  "(QClear \<notin> set ops \<longrightarrow> fst (qrun ops q) @ snd (qrun ops q) = q @ added ops)
   \<and> qrun (ops1 @ QClear # ops2) q = (fst (qrun ops1 q) @ fst (qrun ops2 []), snd (qrun ops2 []))
   \<and> snd (peek q) = q \<and> fst (peek q) = fst (getNext q)
   \<and> getNext [] = (None, []) \<and> getNext (x # xs) = (Some x, xs)
   \<and> (a \<noteq> next_free h \<longrightarrow>
        arrays (snd (list_snapshot a h)) (fst (list_snapshot a h)) = arrays h a
        \<and> length (arrays (snd (list_snapshot a h)) (fst (list_snapshot a h)))
            = length (arrays h a)
        \<and> arrays (snd (list_snapshot a h)) a = arrays h a
        \<and> arrays (write_array (fst (list_snapshot a h)) ys (snd (list_snapshot a h))) a
            = arrays h a)"
proof -
  have "qrun (ops1 @ QClear # ops2) q
          = (fst (qrun ops1 q) @ fst (qrun ops2 []), snd (qrun ops2 []))"
    by (simp add: qrun_append [of ops1 "QClear # ops2"] clear_def)
  then show ?thesis
    by (simp add: qrun_fifo peek_def getNext_def list_snapshot_def write_array_def
        split: list.splits)
qed

theorem queue_fifo_witness:
  "QClear \<notin> set [QAdd ''a'', QAdd ''b'', QPeek, QGetNext, QAdd ''c'', QGetNext, QGetNext, QGetNext]
   \<and> qrun [QAdd ''a'', QAdd ''b'', QPeek, QGetNext, QAdd ''c'', QGetNext, QGetNext, QGetNext] []
       = ([''a'', ''b'', ''c''], [])
   \<and> qrun [QAdd ''a'', QGetNext, QAdd ''b''] [''z''] = ([''z''], [''a'', ''b''])
   \<and> (0::nat) \<noteq> next_free \<lparr>arrays = (\<lambda>_. [''a'', ''b'']), next_free = 1\<rparr>
   \<and> arrays (write_array
               (fst (list_snapshot 0 \<lparr>arrays = (\<lambda>_. [''a'', ''b'']), next_free = 1\<rparr>)) []
               (snd (list_snapshot 0 \<lparr>arrays = (\<lambda>_. [''a'', ''b'']), next_free = 1\<rparr>))) 0
       = [''a'', ''b'']"
  using queue_fifo [of "[QAdd ''a'', QAdd ''b'', QPeek, QGetNext, QAdd ''c'', QGetNext, QGetNext,
        QGetNext]" "[]" "[]" "[]" "''a''" "[]" 0
        "\<lparr>arrays = (\<lambda>_. [''a'', ''b'']), next_free = 1\<rparr>" "[]"]
  by (simp add: add_def getNext_def peek_def list_snapshot_def write_array_def)

lemma step_keeps_invariant:
  assumes "track_only_while_playing s"
  shows "track_only_while_playing (step env op s)"
proof (cases op)
  case (CallPlay fp)
  with assms show ?thesis
    by (auto simp: track_only_while_playing_def play_def configureFFmpeg_def
        resume_after_configure_def enqueue_def)
next
  case Microtask
  have body: "track_only_while_playing (settle_promise (play_body env fp x))"
    if "track_only_while_playing x" for fp x
    using that
    by (auto simp: track_only_while_playing_def play_body_def settle_promise_def
        resolveTrack_def queue_getNext_def emit_def effect_def emit_error_def cleanup_fields
        play_def configureFFmpeg_def resume_after_configure_def enqueue_def
        split: option.splits if_splits)
  have cfg: "track_only_while_playing (settle_promise (configure_done r k x))"
    if "track_only_while_playing x" for r k x
    using that
    by (auto simp: track_only_while_playing_def configure_done_def settle_promise_def
        resume_after_configure_def enqueue_def effect_def
        split: option.splits continuation.splits)
  have "track_only_while_playing (s\<lparr>pending := ks\<rparr>)" for ks
    using assms by (auto simp: track_only_while_playing_def)
  with Microtask body cfg assms show ?thesis
    by (simp add: microtask_def run_task_def split: list.splits task.splits)
next
  case (MetadataSettled m)
  with assms show ?thesis
    by (auto simp: track_only_while_playing_def play_continue_def settle_promise_def
        emit_error_and_cleanup_def emit_error_def effect_def cleanup_fields
        split: sum.splits option.splits)
next
  case CallPause
  with assms show ?thesis
    by (auto simp: track_only_while_playing_def pause_def stop_def cleanup_fields)
next
  case CallResume
  with assms show ?thesis
    by (auto simp: track_only_while_playing_def resume_def play_def configureFFmpeg_def
        resume_after_configure_def enqueue_def)
next
  case CallStop
  with assms show ?thesis
    by (auto simp: track_only_while_playing_def stop_def cleanup_fields)
next
  case CallSkip
  with assms show ?thesis
    by (auto simp: track_only_while_playing_def skip_def stop_def effect_def cleanup_fields)
next
  case CallDestroy
  with assms show ?thesis
    by (auto simp: track_only_while_playing_def destroy_def effect_def cleanup_fields)
next
  case (CallReconfigure force)
  with assms show ?thesis
    by (auto simp: track_only_while_playing_def reconfigureFFmpeg_def reconfigure_options_def
        configureFFmpeg_def resume_after_configure_def enqueue_def)
next
  case OnError
  with assms show ?thesis by (auto simp: track_only_while_playing_def)
next
  case (TimerPlay fp)
  with assms show ?thesis
    by (auto simp: track_only_while_playing_def play_def configureFFmpeg_def
        resume_after_configure_def enqueue_def)
next
  case (SpeakerOpen now)
  with assms show ?thesis
    by (auto simp: track_only_while_playing_def speaker_on_open_def startProgressTracker_def
        stopProgressTracker_def emit_def effect_def split: option.splits)
next
  case SpeakerClose
  with assms show ?thesis
    by (auto simp: track_only_while_playing_def speaker_on_close_def handleTrackEnd_def Let_def
        queue_getNext_def emit_def effect_def cleanup_fields)
next
  case (SpeakerError err)
  with assms show ?thesis
    by (auto simp: track_only_while_playing_def speaker_on_error_def settle_callback_def
        emit_error_and_cleanup_def emit_error_def effect_def cleanup_fields)
next
  case (FfmpegError err)
  with assms show ?thesis
    by (auto simp: track_only_while_playing_def ffmpeg_on_error_def settle_callback_def
        emit_error_and_cleanup_def emit_error_def effect_def cleanup_fields)
next
  case FfmpegEnd
  with assms show ?thesis by (auto simp: track_only_while_playing_def ffmpeg_on_end_def)
next
  case (ProgressTick now)
  with assms show ?thesis
    by (auto simp: track_only_while_playing_def progress_tick_def emit_def effect_def)
next
  case (QueueAdd t)
  with assms show ?thesis by (auto simp: track_only_while_playing_def)
next
  case QueueGetNext
  with assms show ?thesis by (auto simp: track_only_while_playing_def queue_getNext_def)
next
  case QueueClear
  with assms show ?thesis by (auto simp: track_only_while_playing_def)
qed

lemma reachable_invariant: "reachable s \<Longrightarrow> track_only_while_playing s"
  by (induction rule: reachable.induct)
     (simp_all add: step_keeps_invariant, simp add: track_only_while_playing_def new_player_def)

text \<open>
  C10. In every state a player reaches, after \<^verbatim>\<open>stop()\<close>, \<^verbatim>\<open>pause()\<close> or
  \<^verbatim>\<open>_cleanup()\<close> the current track is null, \<^verbatim>\<open>hasTrack()\<close> is false and
  \<^verbatim>\<open>getCurrentProgress()\<close> is 0. No reachable state has a current track while not
  playing, which is the condition of the second branch of \<^verbatim>\<open>resume()\<close>; after
  \<^verbatim>\<open>stop()\<close> or \<^verbatim>\<open>pause()\<close>, \<^verbatim>\<open>resume()\<close> takes its first branch, a plain
  \<^verbatim>\<open>play()\<close>.
\<close>

theorem no_track_after_stop:
  assumes "reachable s"
  shows "currentTrack (stop s) = None \<and> \<not> hasTrack (stop s)
         \<and> getCurrentProgress now (stop s) = 0
       \<and> currentTrack (pause s) = None \<and> \<not> hasTrack (pause s)
         \<and> getCurrentProgress now (pause s) = 0
       \<and> currentTrack (cleanup s) = None \<and> \<not> hasTrack (cleanup s)
         \<and> getCurrentProgress now (cleanup s) = 0
       \<and> \<not> (currentTrack s \<noteq> None \<and> \<not> isPlaying s)
       \<and> resume env (stop s) = play env None (stop s)
       \<and> resume env (pause s) = play env None (pause s)"
proof -
  have inv: "isPlaying s \<or> currentTrack s = None"
    using reachable_invariant [OF assms] by (simp add: track_only_while_playing_def)
  have st: "currentTrack (stop s) = None" "\<not> isPlaying (stop s)"
    using inv by (auto simp: stop_def cleanup_fields)
  from st inv show ?thesis
    by (auto simp: pause_def hasTrack_def getCurrentProgress_def resume_def cleanup_fields)
qed

lemma reachable_playing_example: "reachable playing_example"
  unfolding playing_example_def loading_example_def listening_player_def
  by (intro reachable.intros)

theorem no_track_after_stop_witness:
  "reachable playing_example
   \<and> currentTrack playing_example = Some ''a.mp3''
   \<and> currentTrack (stop playing_example) = None \<and> \<not> hasTrack (stop playing_example)
   \<and> getCurrentProgress 9000 (stop playing_example) = 0
   \<and> resume env_ok (stop playing_example) = play env_ok None (stop playing_example)"
  using no_track_after_stop [OF reachable_playing_example, of 9000 env_ok]
    reachable_playing_example
  by (simp add: playing_example_eq)

end
